theory Spec2Isabelle
  imports Main "HOL-Library.Sublist"
begin

section \<open>Python strings\<close>

text \<open>
  A Python \<open>str\<close> is modelled as a \<open>string\<close>: a list of characters, each standing for
  one code point below 256. Files hold the same characters (an 8-bit encoding, one
  byte per character), so the bytes written by \<open>open(.., 'wb')\<close> and the text read by
  \<open>open(.., 'r')\<close> are the same list up to the newline translation of text mode. This
  is exact for files of ASCII bytes. Under a multi-byte locale encoding such as UTF-8
  a read in text mode raises \<open>UnicodeDecodeError\<close> on bytes that are not valid and takes
  a multi-byte sequence for one character; such files are outside the model. The
  closed runs below use ASCII contents only, and the general statements about the
  resolver and the pack manifest take the text that was read as a hypothesis.
\<close>

definition is_space :: "char \<Rightarrow> bool" where
  \<comment> \<open>\<open>str.isspace\<close> on the code points below 256\<close>
  "is_space c = ((of_char c :: nat) \<in> {9, 10, 11, 12, 13, 28, 29, 30, 31, 32, 133, 160})"

definition lstrip :: "string \<Rightarrow> string" where
  "lstrip s = dropWhile is_space s"

definition rstrip :: "string \<Rightarrow> string" where
  "rstrip s = rev (dropWhile is_space (rev s))"

definition strip :: "string \<Rightarrow> string" where
  \<comment> \<open>\<open>s.strip()\<close>\<close>
  "strip s = rstrip (lstrip s)"

definition rstrip_chars :: "char \<Rightarrow> string \<Rightarrow> string" where
  \<comment> \<open>\<open>s.rstrip(c)\<close> for a one-character argument\<close>
  "rstrip_chars c s = rev (dropWhile (\<lambda>x. x = c) (rev s))"

definition startswith :: "string \<Rightarrow> string \<Rightarrow> bool" where
  \<comment> \<open>\<open>s.startswith(p)\<close>\<close>
  "startswith s p = (take (length p) s = p)"

definition endswith :: "string \<Rightarrow> string \<Rightarrow> bool" where
  "endswith s p = (length p \<le> length s \<and> drop (length s - length p) s = p)"

text \<open>
  \<open>s.split(sep)\<close> and \<open>s.replace(old, new)\<close> scan from the left and take the matches
  that do not overlap. The first argument of the scanning functions counts the
  characters of a match that are still to be skipped.
\<close>

fun split_scan :: "string \<Rightarrow> nat \<Rightarrow> string \<Rightarrow> string \<Rightarrow> string list" where
  "split_scan sep k acc [] = [rev acc]"
| "split_scan sep (Suc k) acc (c # cs) = split_scan sep k acc cs"
| "split_scan sep 0 acc (c # cs) =
     (if startswith (c # cs) sep
      then rev acc # split_scan sep (length sep - 1) [] cs
      else split_scan sep 0 (c # acc) cs)"

definition split :: "string \<Rightarrow> string \<Rightarrow> string list" where
  \<comment> \<open>\<open>s.split(sep)\<close>, \<open>sep\<close> not empty\<close>
  "split s sep = split_scan sep 0 [] s"

fun replace_scan :: "string \<Rightarrow> string \<Rightarrow> nat \<Rightarrow> string \<Rightarrow> string" where
  "replace_scan old new k [] = []"
| "replace_scan old new (Suc k) (c # cs) = replace_scan old new k cs"
| "replace_scan old new 0 (c # cs) =
     (if startswith (c # cs) old
      then new @ replace_scan old new (length old - 1) cs
      else c # replace_scan old new 0 cs)"

definition replace :: "string \<Rightarrow> string \<Rightarrow> string \<Rightarrow> string" where
  \<comment> \<open>\<open>s.replace(old, new)\<close>, \<open>old\<close> not empty: every occurrence is replaced\<close>
  "replace s old new = replace_scan old new 0 s"


fun universal_newlines :: "string \<Rightarrow> string" where
  "universal_newlines [] = []"
| "universal_newlines [c] = (if c = CHR 0x0D then [CHR 0x0A] else [c])"
| "universal_newlines (c # d # cs) =
     (if c = CHR 0x0D \<and> d = CHR 0x0A then CHR 0x0A # universal_newlines cs
      else if c = CHR 0x0D then CHR 0x0A # universal_newlines (d # cs)
      else c # universal_newlines (d # cs))"

section \<open>The patterns of the extractor\<close>

definition is_hex :: "char \<Rightarrow> bool" where
  \<comment> \<open>the character class \<open>[0-9a-f]\<close>\<close>
  "is_hex c = (c \<in> set ''0123456789abcdef'')"

definition ref_pattern_match :: "string \<Rightarrow> bool" where
  \<comment> \<open>\<open>re.compile(r'^[0-9a-f]{40}$').match(s)\<close>; \<open>$\<close> also matches before a final newline\<close>
  "ref_pattern_match s =
     (list_all is_hex (take 40 s) \<and>
      (length s = 40 \<or> (length s = 41 \<and> drop 40 s = [CHR 0x0A])))"

text \<open>
  \<open>pack_pattern = re.compile(r'P ([0-9a-f]{40}) (.+\.pack)')\<close>. A match at the head of
  \<open>s\<close> is \<open>P\<close>, a space, 40 hex digits, a space, and the greedy \<open>.+\.pack\<close>: the longest
  stretch of the rest of the line (\<open>.\<close> does not match a newline) that ends in
  \<open>.pack\<close> and has at least one character before it. \<open>last_pack_end\<close> is the length of
  that stretch.
\<close>

fun last_pack_end :: "string \<Rightarrow> nat option" where
  "last_pack_end [] = None"
| "last_pack_end (c # cs) =
     (case last_pack_end cs of
        Some n \<Rightarrow> Some (Suc n)
      | None \<Rightarrow> if startswith cs ''.pack'' then Some 6 else None)"

definition pack_pattern_match_at :: "string \<Rightarrow> (string \<times> nat) option" where
  \<comment> \<open>the second group of a match at the head of \<open>s\<close>, and the length of the match\<close>
  "pack_pattern_match_at s =
     (if startswith s ''P '' \<and> 43 \<le> length s \<and> list_all is_hex (take 40 (drop 2 s))
         \<and> s ! 42 = CHR '' ''
      then (let line = takeWhile (\<lambda>c. c \<noteq> CHR 0x0A) (drop 43 s) in
            case last_pack_end line of
              None \<Rightarrow> None
            | Some n \<Rightarrow> Some (take n line, 43 + n))
      else None)"

fun findall_scan :: "nat \<Rightarrow> string \<Rightarrow> string list" where
  "findall_scan k [] = []"
| "findall_scan (Suc k) (c # cs) = findall_scan k cs"
| "findall_scan 0 (c # cs) =
     (case pack_pattern_match_at (c # cs) of
        Some (g, n) \<Rightarrow> g # findall_scan (n - 1) cs
      | None \<Rightarrow> findall_scan 0 cs)"

definition pack_pattern_findall :: "string \<Rightarrow> string list" where
  \<comment> \<open>the second group of every element of \<open>pack_pattern.findall(content)\<close>, in order\<close>
  "pack_pattern_findall content = findall_scan 0 content"

section \<open>Paths (\<open>posixpath\<close>)\<close>

text \<open>
  \<open>os.path\<close> on a POSIX system: the separator is the slash, and a component that starts
  with a slash discards what was joined before it.
\<close>

definition os_path_join :: "string \<Rightarrow> string \<Rightarrow> string" where
  \<comment> \<open>\<open>os.path.join(a, b)\<close>; with more arguments it is applied from the left\<close>
  "os_path_join a b =
     (if startswith b ''/'' then b
      else if a = [] \<or> endswith a ''/'' then a @ b
      else a @ ''/'' @ b)"

definition os_path_split :: "string \<Rightarrow> string \<times> string" where
  \<comment> \<open>\<open>os.path.split(p)\<close>: the head loses its trailing slashes unless it is only slashes\<close>
  "os_path_split p =
     (let head = rev (dropWhile (\<lambda>c. c \<noteq> CHR ''/'') (rev p));
          tail = rev (takeWhile (\<lambda>c. c \<noteq> CHR ''/'') (rev p))
      in (if head \<noteq> [] \<and> head \<noteq> replicate (length head) (CHR ''/'')
          then rstrip_chars (CHR ''/'') head else head, tail))"

definition os_path_dirname :: "string \<Rightarrow> string" where
  "os_path_dirname p = fst (os_path_split p)"


section \<open>The file system\<close>

text \<open>
  The exceptions the program can meet. The first four are the \<open>OSError\<close>s of the file
  operations; \<open>IndexError\<close> and \<open>ValueError\<close> come from list indexing and from the
  library calls that reject an argument.
\<close>

datatype error =
  FileExistsError | FileNotFoundError | NotADirectoryError | IsADirectoryError
  | IndexError | ValueError

text \<open>
  A file system is a tree without links: a partial map from locations (the names from
  the root down) to nodes, and the working directory. The root is always a directory.
  Permissions, quotas and changes made by other processes are not modelled. An
  operation returns its outcome together with the file system it leaves behind, so the
  effects that precede a raise persist.
\<close>

datatype node = File string | Dir

type_synonym loc = "string list"

record fsys =
  nodes :: "loc \<Rightarrow> node option"
  cwd :: loc

definition node_at :: "fsys \<Rightarrow> loc \<Rightarrow> node option" where
  "node_at fs l = (if l = [] then Some Dir else nodes fs l)"

definition step :: "loc \<Rightarrow> string \<Rightarrow> loc" where
  "step cur c = (if c = [] \<or> c = ''.'' then cur else if c = ''..'' then butlast cur else cur @ [c])"

text \<open>
  Path resolution walks the components; the location it stands on must be a directory
  before each step. The location reached need not exist.
\<close>

fun walk :: "fsys \<Rightarrow> loc \<Rightarrow> string list \<Rightarrow> error + loc" where
  "walk fs cur [] = Inr cur"
| "walk fs cur (c # cs) =
     (case node_at fs cur of
        None \<Rightarrow> Inl FileNotFoundError
      | Some (File _) \<Rightarrow> Inl NotADirectoryError
      | Some Dir \<Rightarrow> walk fs (step cur c) cs)"

definition resolve :: "fsys \<Rightarrow> string \<Rightarrow> error + loc" where
  "resolve fs p =
     (if p = [] then Inl FileNotFoundError
      else walk fs (if startswith p ''/'' then [] else cwd fs) (split p ''/''))"

definition os_path_exists :: "fsys \<Rightarrow> string \<Rightarrow> bool" where
  "os_path_exists fs p =
     (case resolve fs p of Inl _ \<Rightarrow> False | Inr l \<Rightarrow> node_at fs l \<noteq> None)"

definition os_path_isdir :: "fsys \<Rightarrow> string \<Rightarrow> bool" where
  "os_path_isdir fs p =
     (case resolve fs p of Inl _ \<Rightarrow> False | Inr l \<Rightarrow> node_at fs l = Some Dir)"

definition os_mkdir :: "string \<Rightarrow> fsys \<Rightarrow> (error + unit) \<times> fsys" where
  \<comment> \<open>\<open>os.mkdir(p)\<close>; trailing slashes of \<open>p\<close> are ignored\<close>
  "os_mkdir p fs =
     (let q = rstrip_chars (CHR ''/'') p in
      case resolve fs (if q = [] then p else q) of
        Inl e \<Rightarrow> (Inl e, fs)
      | Inr l \<Rightarrow>
          if node_at fs l \<noteq> None then (Inl FileExistsError, fs)
          else (Inr (), fs\<lparr>nodes := (nodes fs)(l \<mapsto> Dir)\<rparr>))"

definition read_bytes :: "fsys \<Rightarrow> string \<Rightarrow> error + string" where
  \<comment> \<open>\<open>open(p, 'rb').read()\<close>\<close>
  "read_bytes fs p =
     (case resolve fs p of
        Inl e \<Rightarrow> Inl e
      | Inr l \<Rightarrow>
          (case node_at fs l of
             None \<Rightarrow> Inl FileNotFoundError
           | Some Dir \<Rightarrow> Inl IsADirectoryError
           | Some (File c) \<Rightarrow> Inr c))"

definition read_text :: "fsys \<Rightarrow> string \<Rightarrow> error + string" where
  \<comment> \<open>\<open>open(p, 'r').read()\<close>: text mode translates the line ends\<close>
  "read_text fs p = map_sum id universal_newlines (read_bytes fs p)"

definition write_bytes :: "string \<Rightarrow> string \<Rightarrow> fsys \<Rightarrow> (error + unit) \<times> fsys" where
  \<comment> \<open>\<open>with open(p, 'wb') as f: f.write(content)\<close>\<close>
  "write_bytes p content fs =
     (case resolve fs p of
        Inl e \<Rightarrow> (Inl e, fs)
      | Inr l \<Rightarrow>
          if node_at fs l = Some Dir then (Inl IsADirectoryError, fs)
          else (Inr (), fs\<lparr>nodes := (nodes fs)(l \<mapsto> File content)\<rparr>))"

text \<open>
  \<open>os.makedirs(name, exist_ok)\<close>, as the library has it: the missing head is made first
  (a \<open>FileExistsError\<close> of that call is passed over), a tail \<open>.\<close> then ends the call, and
  the final \<open>mkdir\<close> may fail only where \<open>exist_ok\<close> holds and the name is a directory.
\<close>

definition makedirs_split :: "string \<Rightarrow> string \<times> string" where
  "makedirs_split name =
     (let (head, tail) = os_path_split name in
      if tail = [] then os_path_split head else (head, tail))"

definition makedirs_last :: "bool \<Rightarrow> string \<Rightarrow> fsys \<Rightarrow> (error + unit) \<times> fsys" where
  "makedirs_last exist_ok name fs =
     (case os_mkdir name fs of
        (Inl e, fs') \<Rightarrow>
          if \<not> exist_ok \<or> \<not> os_path_isdir fs' name then (Inl e, fs') else (Inr (), fs')
      | (Inr u, fs') \<Rightarrow> (Inr u, fs'))"

lemma os_path_split_length:
  "length (fst (os_path_split p)) + length (snd (os_path_split p)) \<le> length p"
proof -
  let ?h = "rev (dropWhile (\<lambda>c. c \<noteq> CHR ''/'') (rev p))"
  let ?t = "rev (takeWhile (\<lambda>c. c \<noteq> CHR ''/'') (rev p))"
  have "length ?h + length ?t = length p"
    by (metis add.commute length_append length_rev takeWhile_dropWhile_id)
  moreover have "length (rstrip_chars (CHR ''/'') ?h) \<le> length ?h"
    by (simp add: rstrip_chars_def length_dropWhile_le)
  ultimately show ?thesis
    by (simp add: os_path_split_def Let_def)
qed

lemma makedirs_split_shorter:
  assumes "makedirs_split name = (head, tail)" and "tail \<noteq> []"
  shows "length head < length name"
proof -
  obtain h t where ht: "os_path_split name = (h, t)"
    by (cases "os_path_split name")
  have l1: "length h + length t \<le> length name"
    using os_path_split_length [of name] ht by simp
  show ?thesis
  proof (cases "t = []")
    case False
    with assms ht have "head = h" "tail = t"
      by (simp_all add: makedirs_split_def)
    with l1 assms(2) show ?thesis
      by (cases tail) auto
  next
    case True
    with assms ht have "os_path_split h = (head, tail)"
      by (simp add: makedirs_split_def)
    then have "length head + length tail \<le> length h"
      using os_path_split_length [of h] by simp
    with l1 assms(2) show ?thesis
      by (cases tail) auto
  qed
qed

function makedirs :: "bool \<Rightarrow> string \<Rightarrow> fsys \<Rightarrow> (error + unit) \<times> fsys" where
  "makedirs exist_ok name fs =
     (case makedirs_split name of
        (head, tail) \<Rightarrow>
          if head \<noteq> [] \<and> tail \<noteq> [] \<and> \<not> os_path_exists fs head then
            (case makedirs exist_ok head fs of
               (Inl e, fs') \<Rightarrow>
                 if e \<noteq> FileExistsError then (Inl e, fs')
                 else if tail = ''.'' then (Inr (), fs')
                 else makedirs_last exist_ok name fs'
             | (Inr u, fs') \<Rightarrow>
                 if tail = ''.'' then (Inr (), fs')
                 else makedirs_last exist_ok name fs')
          else makedirs_last exist_ok name fs)"
  by pat_completeness auto
termination
  by (relation "measure (\<lambda>(e, name, fs). length name)")
    (auto dest: makedirs_split_shorter [OF sym])

declare makedirs.simps [simp del]


section \<open>The network\<close>

text \<open>
  The transport is a capability of the environment. A request is answered with a
  status code and a body, or the session raises; the answer may depend on the requests
  sent before, so a server that changes between two requests is covered. \<open>urljoin\<close> is
  \<open>urllib.parse.urljoin\<close>, which rejects some arguments with a \<open>ValueError\<close>.
\<close>

datatype http_method = GET | HEAD

type_synonym request = "http_method \<times> string"

datatype reply = Response nat string | Raised

record env =
  urljoin :: "string \<Rightarrow> string \<Rightarrow> error + string"
  net :: "request list \<Rightarrow> request \<Rightarrow> reply"

record world =
  fs :: fsys
  sent :: "request list"

definition and_then ::
  "(error + 'a) \<times> world \<Rightarrow> ('a \<Rightarrow> world \<Rightarrow> (error + 'b) \<times> world) \<Rightarrow> (error + 'b) \<times> world" where
  \<comment> \<open>sequencing: an exception of the first statement ends the block\<close>
  "and_then m f = (case m of (Inl e, w) \<Rightarrow> (Inl e, w) | (Inr x, w) \<Rightarrow> f x w)"

section \<open>GitExtractor\<close>

text \<open>
  The methods of the class, in the order of the source. Each takes the world and
  returns its result, or the exception it raises, with the world it leaves. What the
  program prints is not modelled.
\<close>

record GitExtractor =
  url :: string
  output_dir :: string
  threads :: int
  git_dir :: string

definition git_files :: "string list" where
  "git_files =
     [''.git/HEAD'', ''.git/config'', ''.git/description'', ''.git/info/exclude'',
      ''.git/objects/info/packs'', ''.git/refs/heads/master'', ''.git/refs/heads/main'',
      ''.git/index'']"

definition ensure_dir :: "string \<Rightarrow> fsys \<Rightarrow> (error + unit) \<times> fsys" where
  \<comment> \<open>\<open>if not os.path.exists(d): os.makedirs(d)\<close>\<close>
  "ensure_dir d f = (if \<not> os_path_exists f d then makedirs False d f else (Inr (), f))"

definition init :: "string \<Rightarrow> string \<Rightarrow> int \<Rightarrow> world \<Rightarrow> (error + GitExtractor) \<times> world" where
  \<comment> \<open>\<open>GitExtractor.__init__(url, output_dir, threads)\<close>\<close>
  "init u out t w =
     (case ensure_dir out (fs w) of
        (Inl e, f1) \<Rightarrow> (Inl e, w\<lparr>fs := f1\<rparr>)
      | (Inr _, f1) \<Rightarrow>
          (case ensure_dir (os_path_join out ''.git'') f1 of
             (Inl e, f2) \<Rightarrow> (Inl e, w\<lparr>fs := f2\<rparr>)
           | (Inr _, f2) \<Rightarrow>
               (Inr \<lparr>url = rstrip_chars (CHR ''/'') u, output_dir = out, threads = t,
                      git_dir = os_path_join out ''.git''\<rparr>,
                w\<lparr>fs := f2\<rparr>)))"

definition store :: "string \<Rightarrow> string \<Rightarrow> world \<Rightarrow> bool \<times> world" where
  \<comment> \<open>the body of the \<open>status_code == 200\<close> branch; its exceptions are caught by the caller\<close>
  "store local_path content w =
     (case makedirs True (os_path_dirname local_path) (fs w) of
        (Inl e, f1) \<Rightarrow> (False, w\<lparr>fs := f1\<rparr>)
      | (Inr _, f1) \<Rightarrow>
          (case write_bytes local_path content f1 of
             (Inl e, f2) \<Rightarrow> (False, w\<lparr>fs := f2\<rparr>)
           | (Inr _, f2) \<Rightarrow> (True, w\<lparr>fs := f2\<rparr>)))"

definition download_file :: "env \<Rightarrow> GitExtractor \<Rightarrow> string \<Rightarrow> world \<Rightarrow> (error + bool) \<times> world" where
  "download_file E self path w =
     (case urljoin E (url self) path of
        Inl e \<Rightarrow> (Inl e, w)
      | Inr file_url \<Rightarrow>
          (let local_path = os_path_join (output_dir self) path;
               w1 = w\<lparr>sent := sent w @ [(GET, file_url)]\<rparr>
           in case net E (sent w) (GET, file_url) of
                Raised \<Rightarrow> (Inr False, w1)
              | Response status_code content \<Rightarrow>
                  if status_code = 200
                  then (case store local_path content w1 of (b, w2) \<Rightarrow> (Inr b, w2))
                  else (Inr False, w1)))"

fun probe :: "env \<Rightarrow> GitExtractor \<Rightarrow> string list \<Rightarrow> world \<Rightarrow> (error + bool) \<times> world" where
  "probe E self [] w = (Inr False, w)"
| "probe E self (git_file # rest) w =
     (case urljoin E (url self) git_file of
        Inl e \<Rightarrow> (Inl e, w)
      | Inr u \<Rightarrow>
          (let w1 = w\<lparr>sent := sent w @ [(HEAD, u)]\<rparr>
           in case net E (sent w) (HEAD, u) of
                Raised \<Rightarrow> probe E self rest w1
              | Response status_code content \<Rightarrow>
                  if status_code = 200 then (Inr True, w1) else probe E self rest w1))"

definition check_git_exists :: "env \<Rightarrow> GitExtractor \<Rightarrow> world \<Rightarrow> (error + bool) \<times> world" where
  "check_git_exists E self w = probe E self (take 3 git_files) w"

fun download_each :: "env \<Rightarrow> GitExtractor \<Rightarrow> string list \<Rightarrow> world \<Rightarrow> (error + unit) \<times> world" where
  "download_each E self [] w = (Inr (), w)"
| "download_each E self (p # ps) w =
     and_then (download_file E self p w) (\<lambda>_. download_each E self ps)"

definition download_git_files :: "env \<Rightarrow> GitExtractor \<Rightarrow> world \<Rightarrow> (error + unit) \<times> world" where
  "download_git_files E self w = download_each E self git_files w"

definition read_ref :: "string \<Rightarrow> world \<Rightarrow> (error + string option) \<times> world" where
  \<comment> \<open>\<open>with open(local_ref_path, 'r') as f: return f.read().strip()\<close>\<close>
  "read_ref local_ref_path w =
     (case read_text (fs w) local_ref_path of
        Inl e \<Rightarrow> (Inl e, w)
      | Inr t \<Rightarrow> (Inr (Some (strip t)), w))"

definition extract_hash_from_head ::
  "env \<Rightarrow> GitExtractor \<Rightarrow> world \<Rightarrow> (error + string option) \<times> world" where
  "extract_hash_from_head E self w =
     (let head_path = os_path_join (git_dir self) ''HEAD'' in
      if \<not> os_path_exists (fs w) head_path then (Inr None, w)
      else case read_text (fs w) head_path of
        Inl e \<Rightarrow> (Inl e, w)
      | Inr raw \<Rightarrow>
          (let content = strip raw in
           if startswith content ''ref:'' then
             (case split content ''ref: '' of
                _ # ref_path # _ \<Rightarrow>
                  (let local_ref_path =
                         os_path_join (os_path_join (output_dir self) ''.git'') ref_path
                   in if os_path_exists (fs w) local_ref_path then read_ref local_ref_path w
                      else and_then (download_file E self (os_path_join ''.git'' ref_path) w)
                        (\<lambda>_ w1. if os_path_exists (fs w1) local_ref_path
                                 then read_ref local_ref_path w1
                                 else (Inr None, w1)))
              | _ \<Rightarrow> (Inl IndexError, w))
           else if ref_pattern_match content then (Inr (Some content), w)
           else (Inr None, w)))"

definition obj_path :: "string \<Rightarrow> string" where
  "obj_path git_hash = ''.git/objects/'' @ take 2 git_hash @ ''/'' @ drop 2 git_hash"

text \<open>
  The pool of \<open>download_objects\<close> is modelled by its submissions in order: one
  \<open>download_file\<close> per hash that passes the guard, run one after the other. An exception
  of a worker stays in its future, which nobody reads. The executor itself rejects a
  worker count below one.
\<close>

fun submit_all :: "env \<Rightarrow> GitExtractor \<Rightarrow> string option list \<Rightarrow> world \<Rightarrow> world" where
  "submit_all E self [] w = w"
| "submit_all E self (None # hs) w = submit_all E self hs w"
| "submit_all E self (Some git_hash # hs) w =
     (if git_hash = [] \<or> length git_hash \<noteq> 40 then submit_all E self hs w
      else submit_all E self hs (snd (download_file E self (obj_path git_hash) w)))"

definition download_objects ::
  "env \<Rightarrow> GitExtractor \<Rightarrow> string option list \<Rightarrow> world \<Rightarrow> (error + unit) \<times> world" where
  "download_objects E self hashes w =
     (if threads self \<le> 0 then (Inl ValueError, w)
      else (Inr (), submit_all E self hashes w))"

fun download_packs :: "env \<Rightarrow> GitExtractor \<Rightarrow> string list \<Rightarrow> world \<Rightarrow> (error + unit) \<times> world" where
  "download_packs E self [] w = (Inr (), w)"
| "download_packs E self (pack_file # rest) w =
     and_then (download_file E self (''.git/objects/pack/'' @ pack_file) w)
       (\<lambda>_ w1. and_then
          (download_file E self
             (''.git/objects/pack/'' @ replace pack_file ''.pack'' ''.idx'') w1)
          (\<lambda>_. download_packs E self rest))"

definition download_pack_files :: "env \<Rightarrow> GitExtractor \<Rightarrow> world \<Rightarrow> (error + unit) \<times> world" where
  "download_pack_files E self w =
     (let packs_info_path = os_path_join (git_dir self) ''objects/info/packs'' in
      if \<not> os_path_exists (fs w) packs_info_path then (Inr (), w)
      else case read_text (fs w) packs_info_path of
        Inl e \<Rightarrow> (Inl e, w)
      | Inr content \<Rightarrow> download_packs E self (pack_pattern_findall content) w)"

definition truthy :: "string option \<Rightarrow> bool" where
  \<comment> \<open>\<open>if head_hash:\<close>\<close>
  "truthy h = (case h of None \<Rightarrow> False | Some s \<Rightarrow> s \<noteq> [])"

definition execute :: "env \<Rightarrow> GitExtractor \<Rightarrow> world \<Rightarrow> (error + bool) \<times> world" where
  "execute E self w =
     and_then (check_git_exists E self w)
       (\<lambda>found w1.
          if \<not> found then (Inr False, w1)
          else and_then (download_git_files E self w1)
            (\<lambda>_ w2. and_then (extract_hash_from_head E self w2)
               (\<lambda>head_hash w3.
                  and_then
                    (if truthy head_hash then download_objects E self [head_hash] w3
                     else (Inr (), w3))
                    (\<lambda>_ w4. and_then (download_pack_files E self w4)
                       (\<lambda>_ w5. (Inr True, w5))))))"

definition main :: "env \<Rightarrow> string \<Rightarrow> string \<Rightarrow> int \<Rightarrow> world \<Rightarrow> (error + unit) \<times> world" where
  \<comment> \<open>\<open>extractor = GitExtractor(url, output_dir, threads); extractor.execute()\<close>\<close>
  "main E u out t w =
     and_then (init u out t w)
       (\<lambda>self w1. and_then (execute E self w1) (\<lambda>_ w2. (Inr (), w2)))"


section \<open>A model of \<open>urljoin\<close>\<close>

text \<open>
  \<open>urllib.parse.urljoin(base, url)\<close> for the inputs of the concrete runs: \<open>base\<close> is
  \<open>scheme://host\<close> followed by a path, with scheme \<open>http\<close> or \<open>https\<close>, and \<open>url\<close> is a path
  reference; neither has a query, a fragment, parameters, white space or control
  characters, and \<open>url\<close> has no scheme and does not start with two slashes. The base path
  loses its last segment unless it ends in a slash, the reference is appended, empty
  inner segments are dropped and the dot segments are resolved.
\<close>

definition drop_inner_empty :: "string list \<Rightarrow> string list" where
  \<comment> \<open>\<open>segments[1:-1] = filter(None, segments[1:-1])\<close>\<close>
  "drop_inner_empty segs =
     (if length segs \<le> 2 then segs
      else hd segs # filter (\<lambda>s. s \<noteq> []) (butlast (tl segs)) @ [last segs])"

fun resolve_segments :: "string list \<Rightarrow> string list \<Rightarrow> string list" where
  "resolve_segments resolved [] = resolved"
| "resolve_segments resolved (seg # segs) =
     (if seg = ''..'' then resolve_segments (butlast resolved) segs
      else if seg = ''.'' then resolve_segments resolved segs
      else resolve_segments (resolved @ [seg]) segs)"

fun join_slash :: "string list \<Rightarrow> string" where
  "join_slash [] = []"
| "join_slash [x] = x"
| "join_slash (x # y # ys) = x @ ''/'' @ join_slash (y # ys)"

definition http_urljoin :: "string \<Rightarrow> string \<Rightarrow> string" where
  "http_urljoin base ref =
     (if base = [] then ref else if ref = [] then base
      else
        (let scheme = takeWhile (\<lambda>c. c \<noteq> CHR '':'') base;
             rest = drop (length scheme + 3) base;
             netloc = takeWhile (\<lambda>c. c \<noteq> CHR ''/'') rest;
             bpath = dropWhile (\<lambda>c. c \<noteq> CHR ''/'') rest;
             base_parts = split bpath ''/'';
             base_dir = (if last base_parts \<noteq> [] then butlast base_parts else base_parts);
             segments = (if startswith ref ''/'' then split ref ''/''
                         else drop_inner_empty (base_dir @ split ref ''/''));
             resolved = resolve_segments [] segments;
             joined = join_slash
               (if last segments = ''.'' \<or> last segments = ''..'' then resolved @ [[]]
                else resolved);
             path = (if joined = [] then ''/'' else joined)
         in scheme @ ''://'' @ netloc @ (if startswith path ''/'' then path else ''/'' @ path)))"

definition python_env :: "(request list \<Rightarrow> request \<Rightarrow> reply) \<Rightarrow> env" where
  "python_env server = \<lparr>urljoin = (\<lambda>base ref. Inr (http_urljoin base ref)), net = server\<rparr>"

section \<open>Concrete environments\<close>

text \<open>
  A server that answers every request with 404, an extractor on \<open>http://h\<close> and a
  file system that holds the working directory only, for the concrete runs below.
  \<open>slash_join\<close> stands in for \<open>urljoin\<close> where the URL itself does not matter.
\<close>

definition slash_join :: "string \<Rightarrow> string \<Rightarrow> error + string" where
  "slash_join b p = Inr (b @ ''/'' @ p)"

definition deaf_env :: env where
  "deaf_env = \<lparr>urljoin = slash_join, net = (\<lambda>h r. Response 404 [])\<rparr>"

definition some_self :: GitExtractor where
  "some_self =
     \<lparr>url = ''http://h'', output_dir = ''out'', threads = 10, git_dir = ''out/.git''\<rparr>"

definition fresh_world :: world where
  "fresh_world = \<lparr>fs = \<lparr>nodes = [[''home''] \<mapsto> Dir], cwd = [''home'']\<rparr>, sent = []\<rparr>"

definition ready_world :: world where
  \<comment> \<open>the world the constructor leaves when it is given \<open>out\<close> in \<open>fresh_world\<close>\<close>
  "ready_world =
     \<lparr>fs = \<lparr>nodes = [[''home''] \<mapsto> Dir, [''home'', ''out''] \<mapsto> Dir,
                     [''home'', ''out'', ''.git''] \<mapsto> Dir],
             cwd = [''home'']\<rparr>,
      sent = []\<rparr>"

definition file_server :: "(string \<times> string) list \<Rightarrow> request list \<Rightarrow> request \<Rightarrow> reply" where
  \<comment> \<open>a static server: status 200 and the body for the listed URLs, 404 for the rest\<close>
  "file_server files h r =
     (case map_of files (snd r) of
        Some body \<Rightarrow> Response 200 body
      | None \<Rightarrow> Response 404 [])"

definition created_server :: "request list \<Rightarrow> request \<Rightarrow> reply" where
  \<comment> \<open>a server that answers every request with 201 Created\<close>
  "created_server h r = Response 201 ''data''"

definition head_world :: "string \<Rightarrow> (loc \<times> node) list \<Rightarrow> world" where
  \<comment> \<open>\<open>ready_world\<close> with a downloaded \<open>HEAD\<close> and further nodes of \<open>out/.git\<close>, given by
     their locations below it\<close>
  "head_world head_content below =
     \<lparr>fs = \<lparr>nodes = (\<lambda>l.
               if l = [''home''] \<or> l = [''home'', ''out''] \<or> l = [''home'', ''out'', ''.git'']
               then Some Dir
               else if l = [''home'', ''out'', ''.git'', ''HEAD''] then Some (File head_content)
               else if take 3 l = [''home'', ''out'', ''.git''] then map_of below (drop 3 l)
               else None),
             cwd = [''home'']\<rparr>,
      sent = []\<rparr>"

section \<open>The notions of the specification\<close>

definition is_content_hash :: "string \<Rightarrow> bool" where
  \<comment> \<open>ContentHash: exactly 40 lowercase hexadecimal characters\<close>
  "is_content_hash h = (length h = 40 \<and> list_all is_hex h)"

definition success_status :: "nat \<Rightarrow> bool" where
  \<comment> \<open>a 2xx status\<close>
  "success_status code = (200 \<le> code \<and> code < 300)"

section \<open>The existence probe\<close>

lemma probe_no_success:
  assumes "map (urljoin E (url self)) ps = map Inr us"
    and "\<forall>i<length us. \<forall>body.
           net E (sent w @ map (Pair HEAD) (take i us)) (HEAD, us ! i) \<noteq> Response 200 body"
  shows "probe E self ps w = (Inr False, w\<lparr>sent := sent w @ map (Pair HEAD) us\<rparr>)"
  using assms
proof (induction ps arbitrary: us w)
  case Nil
  then show ?case by simp
next
  case (Cons p ps)
  then obtain u us' where us: "us = u # us'" and pu: "urljoin E (url self) p = Inr u"
    and rest: "map (urljoin E (url self)) ps = map Inr us'"
    by (cases us) auto
  let ?w1 = "w\<lparr>sent := sent w @ [(HEAD, u)]\<rparr>"
  have first: "\<forall>body. net E (sent w) (HEAD, u) \<noteq> Response 200 body"
    using Cons.prems(2) us by (auto dest: spec [of _ 0])
  have later: "\<forall>i<length us'. \<forall>body.
      net E (sent ?w1 @ map (Pair HEAD) (take i us')) (HEAD, us' ! i) \<noteq> Response 200 body"
  proof (intro allI impI)
    fix i body
    assume "i < length us'"
    then have "net E (sent w @ map (Pair HEAD) (take (Suc i) us)) (HEAD, us ! Suc i)
        \<noteq> Response 200 body"
      using Cons.prems(2) us by auto
    then show "net E (sent ?w1 @ map (Pair HEAD) (take i us')) (HEAD, us' ! i)
        \<noteq> Response 200 body"
      by (simp add: us)
  qed
  have step: "probe E self (p # ps) w = probe E self ps ?w1"
    using first pu by (cases "net E (sent w) (HEAD, u)") (auto simp: Let_def)
  show ?case
    unfolding step using Cons.IH [OF rest later] by (simp add: us)
qed

text \<open>
  C6. When none of the header-only requests for the first three catalog paths is
  answered with status 200 (\<open>us\<close> are their URLs, the \<open>i\<close>-th one sent after the
  \<open>i\<close> before it), \<open>execute\<close> returns \<open>False\<close>, the aborted outcome; the only requests of
  the run are these \<open>HEAD\<close> requests, so no \<open>GET\<close> is issued, and the file system is the
  one the run started with.
\<close>

theorem failed_probe_aborts:
  assumes "map (urljoin E (url self)) (take 3 git_files) = map Inr us"
    and "\<forall>i<length us. \<forall>body.
           net E (sent w @ map (Pair HEAD) (take i us)) (HEAD, us ! i) \<noteq> Response 200 body"
  shows "execute E self w = (Inr False, w\<lparr>sent := sent w @ map (Pair HEAD) us\<rparr>)"
  using probe_no_success [OF assms]
  by (simp add: execute_def check_git_exists_def and_then_def)

theorem failed_probe_aborts_witness:
  "execute deaf_env some_self fresh_world =
     (Inr False,
      fresh_world\<lparr>sent := sent fresh_world @ map (Pair HEAD)
        [''http://h/.git/HEAD'', ''http://h/.git/config'', ''http://h/.git/description'']\<rparr>)"
  by (rule failed_probe_aborts)
    (simp_all add: deaf_env_def some_self_def slash_join_def git_files_def)


section \<open>File system facts\<close>

lemma walk_mono:
  assumes "walk f cur cs = Inr l"
    and "\<And>x. node_at f x = Some Dir \<Longrightarrow> node_at f' x = Some Dir"
  shows "walk f' cur cs = Inr l"
  using assms(1)
proof (induction cs arbitrary: cur)
  case Nil
  then show ?case by simp
next
  case (Cons c cs)
  from Cons.prems have d: "node_at f cur = Some Dir"
    by (auto split: option.splits node.splits)
  with Cons.prems have "walk f (step cur c) cs = Inr l" by simp
  then have "walk f' (step cur c) cs = Inr l" by (rule Cons.IH)
  with assms(2) [OF d] show ?case by simp
qed

lemma resolve_mono:
  assumes "resolve f p = Inr l" and "cwd f' = cwd f"
    and "\<And>x. node_at f x = Some Dir \<Longrightarrow> node_at f' x = Some Dir"
  shows "resolve f' p = Inr l"
proof (cases "p = []")
  case True
  with assms(1) show ?thesis by (simp add: resolve_def)
next
  case False
  with assms(1) have "walk f (if startswith p ''/'' then [] else cwd f) (split p ''/'') = Inr l"
    by (simp add: resolve_def)
  then have "walk f' (if startswith p ''/'' then [] else cwd f) (split p ''/'') = Inr l"
    using assms(3) by (rule walk_mono)
  with False show ?thesis
    by (cases "startswith p ''/''") (simp_all add: resolve_def assms(2))
qed

lemma node_at_update:
  "l \<noteq> [] \<Longrightarrow> node_at (f\<lparr>nodes := (nodes f)(l \<mapsto> n)\<rparr>) x = (if x = l then Some n else node_at f x)"
  by (simp add: node_at_def)

lemma write_then_read:
  assumes "write_bytes p c f = (Inr (), f')"
  shows "read_bytes f' p = Inr c"
proof -
  from assms obtain l where l: "resolve f p = Inr l" and nd: "node_at f l \<noteq> Some Dir"
    and f': "f' = f\<lparr>nodes := (nodes f)(l \<mapsto> File c)\<rparr>"
    by (cases "resolve f p") (auto simp: write_bytes_def split: if_splits)
  from nd have ne: "l \<noteq> []" by (auto simp: node_at_def)
  have "resolve f' p = Inr l"
  proof (rule resolve_mono [OF l])
    show "cwd f' = cwd f" by (simp add: f')
  next
    fix x assume "node_at f x = Some Dir"
    with nd show "node_at f' x = Some Dir"
      unfolding f' by (auto simp: node_at_update [OF ne])
  qed
  moreover have "node_at f' l = Some (File c)"
    unfolding f' by (simp add: node_at_update [OF ne])
  ultimately show ?thesis by (simp add: read_bytes_def)
qed

lemma write_failure_keeps:
  "write_bytes p c f = (Inl e, f') \<Longrightarrow> f' = f"
  by (cases "resolve f p") (simp_all add: write_bytes_def split: if_splits)

lemma store_sent: "sent (snd (store lp body w)) = sent w"
proof -
  obtain r1 f1 where m: "makedirs True (os_path_dirname lp) (fs w) = (r1, f1)"
    by (cases "makedirs True (os_path_dirname lp) (fs w)")
  obtain r2 f2 where wr: "write_bytes lp body f1 = (r2, f2)"
    by (cases "write_bytes lp body f1")
  show ?thesis
    by (cases r1; cases r2) (simp_all add: store_def m wr)
qed

lemma store_success:
  assumes "fst (store lp body w)"
  shows "read_bytes (fs (snd (store lp body w))) lp = Inr body"
proof -
  obtain r1 f1 where m: "makedirs True (os_path_dirname lp) (fs w) = (r1, f1)"
    by (cases "makedirs True (os_path_dirname lp) (fs w)")
  obtain r2 f2 where wr: "write_bytes lp body f1 = (r2, f2)"
    by (cases "write_bytes lp body f1")
  from assms have "r2 = Inr ()" and "snd (store lp body w) = w\<lparr>fs := f2\<rparr>"
    by (cases r1; cases r2; simp add: store_def m wr)+
  with wr write_then_read show ?thesis by simp
qed

lemma download_file_unfold:
  assumes "urljoin E (url self) path = Inr u"
  shows "download_file E self path w =
     (case net E (sent w) (GET, u) of
        Raised \<Rightarrow> (Inr False, w\<lparr>sent := sent w @ [(GET, u)]\<rparr>)
      | Response status_code content \<Rightarrow>
          if status_code = 200
          then (Inr (fst (store (os_path_join (output_dir self) path) content
                            (w\<lparr>sent := sent w @ [(GET, u)]\<rparr>))),
                snd (store (os_path_join (output_dir self) path) content
                       (w\<lparr>sent := sent w @ [(GET, u)]\<rparr>)))
          else (Inr False, w\<lparr>sent := sent w @ [(GET, u)]\<rparr>))"
  using assms
  by (simp add: download_file_def Let_def case_prod_beta split: reply.splits)

lemma download_file_sent:
  assumes "urljoin E (url self) path = Inr u"
  shows "sent (snd (download_file E self path w)) = sent w @ [(GET, u)]"
  unfolding download_file_unfold [OF assms]
  by (cases "net E (sent w) (GET, u)") (simp_all add: store_sent)

lemma download_file_returns:
  assumes "urljoin E (url self) path = Inr u"
  shows "\<exists>b. fst (download_file E self path w) = Inr b"
  unfolding download_file_unfold [OF assms]
  by (cases "net E (sent w) (GET, u)") auto

lemma download_file_raise:
  "urljoin E (url self) path = Inl e \<Longrightarrow> download_file E self path w = (Inl e, w)"
  by (simp add: download_file_def)

section \<open>The file fetcher\<close>

text \<open>
  C3, as amended. When the URL can be formed, \<open>download_file\<close> raises nothing and sends
  exactly one \<open>GET\<close>. Unless the reply has status 200 (so also for 201 or 204, and when
  the transport raises) it returns \<open>False\<close> and leaves the file system as it was. On a
  reply with status 200 it returns \<open>True\<close> if and only if the local write succeeds, that
  is, \<open>makedirs\<close> on the directory of the local path and then the write of the body
  both succeed. When it returns \<open>True\<close>, the file at the join of the output directory and
  the path holds the whole body.
\<close>

theorem download_file_outcome:
  assumes "urljoin E (url self) path = Inr u"
  shows "(\<exists>b. fst (download_file E self path w) = Inr b)
    \<and> sent (snd (download_file E self path w)) = sent w @ [(GET, u)]
    \<and> ((\<forall>body. net E (sent w) (GET, u) \<noteq> Response 200 body) \<longrightarrow>
         download_file E self path w = (Inr False, w\<lparr>sent := sent w @ [(GET, u)]\<rparr>))
    \<and> (\<forall>body. net E (sent w) (GET, u) = Response 200 body \<longrightarrow>
         (fst (download_file E self path w) = Inr True \<longleftrightarrow>
            fst (makedirs True (os_path_dirname (os_path_join (output_dir self) path)) (fs w))
              = Inr ()
            \<and> fst (write_bytes (os_path_join (output_dir self) path) body
                 (snd (makedirs True (os_path_dirname (os_path_join (output_dir self) path))
                    (fs w))))
              = Inr ()))
    \<and> (fst (download_file E self path w) = Inr True \<longrightarrow>
         (\<exists>body. net E (sent w) (GET, u) = Response 200 body
            \<and> read_bytes (fs (snd (download_file E self path w)))
                 (os_path_join (output_dir self) path) = Inr body))"
proof (intro conjI impI allI)
  show "\<exists>b. fst (download_file E self path w) = Inr b"
    using assms by (rule download_file_returns)
  show "sent (snd (download_file E self path w)) = sent w @ [(GET, u)]"
    using assms by (rule download_file_sent)
next
  assume "\<forall>body. net E (sent w) (GET, u) \<noteq> Response 200 body"
  then show "download_file E self path w = (Inr False, w\<lparr>sent := sent w @ [(GET, u)]\<rparr>)"
    unfolding download_file_unfold [OF assms]
    by (cases "net E (sent w) (GET, u)") auto
next
  fix body
  assume r: "net E (sent w) (GET, u) = Response 200 body"
  let ?w1 = "w\<lparr>sent := sent w @ [(GET, u)]\<rparr>"
  let ?lp = "os_path_join (output_dir self) path"
  obtain r1 f1 where m: "makedirs True (os_path_dirname ?lp) (fs w) = (r1, f1)"
    by (cases "makedirs True (os_path_dirname ?lp) (fs w)")
  obtain r2 f2 where wr: "write_bytes ?lp body f1 = (r2, f2)"
    by (cases "write_bytes ?lp body f1")
  have "fst (download_file E self path w) = Inr (fst (store ?lp body ?w1))"
    unfolding download_file_unfold [OF assms] by (simp add: r)
  moreover have "fst (store ?lp body ?w1) \<longleftrightarrow> r1 = Inr () \<and> r2 = Inr ()"
    by (cases r1; cases r2) (simp_all add: store_def m wr)
  ultimately show "fst (download_file E self path w) = Inr True \<longleftrightarrow>
      fst (makedirs True (os_path_dirname ?lp) (fs w)) = Inr ()
      \<and> fst (write_bytes ?lp body (snd (makedirs True (os_path_dirname ?lp) (fs w)))) = Inr ()"
    by (simp add: m wr)
next
  assume t: "fst (download_file E self path w) = Inr True"
  let ?w1 = "w\<lparr>sent := sent w @ [(GET, u)]\<rparr>"
  let ?lp = "os_path_join (output_dir self) path"
  from t obtain body where r: "net E (sent w) (GET, u) = Response 200 body"
    unfolding download_file_unfold [OF assms]
    by (cases "net E (sent w) (GET, u)") (auto split: if_splits)
  have d: "download_file E self path w =
      (Inr (fst (store ?lp body ?w1)), snd (store ?lp body ?w1))"
    unfolding download_file_unfold [OF assms] by (simp add: r)
  with t have "fst (store ?lp body ?w1)" by simp
  then have "read_bytes (fs (snd (store ?lp body ?w1))) ?lp = Inr body"
    by (rule store_success)
  with r d show "\<exists>body. net E (sent w) (GET, u) = Response 200 body
            \<and> read_bytes (fs (snd (download_file E self path w))) ?lp = Inr body"
    by simp
qed

theorem download_file_outcome_witness:
  "download_file deaf_env some_self ''.git/HEAD'' ready_world =
     (Inr False, ready_world\<lparr>sent := sent ready_world @ [(GET, ''http://h/.git/HEAD'')]\<rparr>)
   \<and> fst (download_file
        (python_env (file_server [(''http://h/.git/HEAD'', ''ref: refs/heads/main'')]))
        some_self ''.git/HEAD'' ready_world) = Inr True
   \<and> (\<exists>body.
         net (python_env (file_server [(''http://h/.git/HEAD'', ''ref: refs/heads/main'')]))
           (sent ready_world) (GET, ''http://h/.git/HEAD'') = Response 200 body
         \<and> read_bytes
             (fs (snd (download_file
                (python_env (file_server [(''http://h/.git/HEAD'', ''ref: refs/heads/main'')]))
                some_self ''.git/HEAD'' ready_world)))
             (os_path_join (output_dir some_self) ''.git/HEAD'') = Inr body)"
proof (intro conjI)
  have j: "urljoin deaf_env (url some_self) ''.git/HEAD'' = Inr ''http://h/.git/HEAD''"
    by (simp add: deaf_env_def some_self_def slash_join_def)
  have n: "\<forall>body. net deaf_env (sent ready_world) (GET, ''http://h/.git/HEAD'')
      \<noteq> Response 200 body"
    by (simp add: deaf_env_def)
  from download_file_outcome [OF j, of ready_world] n
  show "download_file deaf_env some_self ''.git/HEAD'' ready_world =
     (Inr False, ready_world\<lparr>sent := sent ready_world @ [(GET, ''http://h/.git/HEAD'')]\<rparr>)"
    by blast
next
  let ?E = "python_env (file_server [(''http://h/.git/HEAD'', ''ref: refs/heads/main'')])"
  let ?lp = "os_path_join (output_dir some_self) ''.git/HEAD''"
  have j: "urljoin ?E (url some_self) ''.git/HEAD'' = Inr ''http://h/.git/HEAD''"
    by code_simp
  have r: "net ?E (sent ready_world) (GET, ''http://h/.git/HEAD'')
      = Response 200 ''ref: refs/heads/main''"
    by code_simp
  have m: "fst (makedirs True (os_path_dirname ?lp) (fs ready_world)) = Inr ()"
    by code_simp
  have wr: "fst (write_bytes ?lp ''ref: refs/heads/main''
      (snd (makedirs True (os_path_dirname ?lp) (fs ready_world)))) = Inr ()"
    by code_simp
  from download_file_outcome [OF j, of ready_world] r m wr
  show t: "fst (download_file ?E some_self ''.git/HEAD'' ready_world) = Inr True"
    by blast
  from download_file_outcome [OF j, of ready_world] t
  show "\<exists>body. net ?E (sent ready_world) (GET, ''http://h/.git/HEAD'') = Response 200 body
      \<and> read_bytes (fs (snd (download_file ?E some_self ''.git/HEAD'' ready_world))) ?lp
          = Inr body"
    by blast
qed

text \<open>
  A reply with status 201 is a success status of the 2xx range, and yet the fetch
  reports a failure and writes nothing. And a reply with status 200 is not enough
  either: where the local path is a directory, as for the path \<open>.git\<close>, the write fails
  and the fetch reports a failure.
\<close>

theorem created_status_is_failure:
  "success_status 201
   \<and> net (python_env created_server) (sent ready_world) (GET, ''http://h/.git/HEAD'')
       = Response 201 ''data''
   \<and> fst (download_file (python_env created_server) some_self ''.git/HEAD'' ready_world)
       = Inr False
   \<and> node_at (fs (snd (download_file (python_env created_server) some_self ''.git/HEAD''
        ready_world))) [''home'', ''out'', ''.git'', ''HEAD''] = None
   \<and> net (python_env (file_server [(''http://h/.git'', ''x'')])) (sent ready_world)
        (GET, ''http://h/.git'') = Response 200 ''x''
   \<and> fst (download_file (python_env (file_server [(''http://h/.git'', ''x'')])) some_self
        ''.git'' ready_world) = Inr False"
  by code_simp

section \<open>The object fetch pool\<close>

lemma download_file_sent_cases:
  "sent (snd (download_file E self path w)) =
     sent w @ (case urljoin E (url self) path of Inl e \<Rightarrow> [] | Inr u \<Rightarrow> [(GET, u)])"
  by (cases "urljoin E (url self) path")
    (simp_all add: download_file_raise download_file_sent)

lemma submit_all_sent:
  "\<exists>rs. sent (submit_all E self hs w) = sent w @ rs
     \<and> (\<forall>r\<in>set rs. \<exists>h. Some h \<in> set hs \<and> length h = 40 \<and> fst r = GET
           \<and> urljoin E (url self) (obj_path h) = Inr (snd r))"
proof (induction E self hs w rule: submit_all.induct)
  case (1 E self w)
  show ?case by simp
next
  case (2 E self hs w)
  then show ?case by auto
next
  case (3 E self git_hash hs w)
  show ?case
  proof (cases "git_hash = [] \<or> length git_hash \<noteq> 40")
    case True
    from 3(1) [OF True] obtain rs where
      rs: "sent (submit_all E self hs w) = sent w @ rs"
      and ok: "\<forall>r\<in>set rs. \<exists>h. Some h \<in> set hs \<and> length h = 40 \<and> fst r = GET
           \<and> urljoin E (url self) (obj_path h) = Inr (snd r)"
      by blast
    have "sent (submit_all E self (Some git_hash # hs) w) = sent w @ rs"
      using True rs by auto
    moreover have "\<forall>r\<in>set rs. \<exists>h. Some h \<in> set (Some git_hash # hs)
        \<and> length h = 40 \<and> fst r = GET \<and> urljoin E (url self) (obj_path h) = Inr (snd r)"
      using ok by fastforce
    ultimately show ?thesis by blast
  next
    case False
    let ?w1 = "snd (download_file E self (obj_path git_hash) w)"
    from 3(2) [OF False] obtain rs where
      rs: "sent (submit_all E self hs ?w1) = sent ?w1 @ rs"
      and ok: "\<forall>r\<in>set rs. \<exists>h. Some h \<in> set hs \<and> length h = 40 \<and> fst r = GET
           \<and> urljoin E (url self) (obj_path h) = Inr (snd r)"
      by blast
    let ?new = "case urljoin E (url self) (obj_path git_hash) of
        Inl e \<Rightarrow> [] | Inr u \<Rightarrow> [(GET, u)]"
    have s1: "sent ?w1 = sent w @ ?new"
      by (rule download_file_sent_cases)
    have new_ok: "\<forall>r\<in>set ?new. \<exists>h. Some h \<in> set (Some git_hash # hs) \<and> length h = 40
        \<and> fst r = GET \<and> urljoin E (url self) (obj_path h) = Inr (snd r)"
      using False by (cases "urljoin E (url self) (obj_path git_hash)") auto
    have "sent (submit_all E self (Some git_hash # hs) w) = sent w @ (?new @ rs)"
      using False rs s1 by simp
    moreover have "\<forall>r\<in>set (?new @ rs). \<exists>h. Some h \<in> set (Some git_hash # hs)
        \<and> length h = 40 \<and> fst r = GET \<and> urljoin E (url self) (obj_path h) = Inr (snd r)"
      using new_ok ok by fastforce
    ultimately show ?thesis by blast
  qed
qed

text \<open>
  Every request that \<open>download_objects\<close> adds is a \<open>GET\<close> for the object path of a
  submitted hash of exactly 40 characters. The guard of the pool looks at the length
  only.
\<close>

lemma fetched_hashes_have_forty_characters:
  assumes "r \<in> set (drop (length (sent w)) (sent (snd (download_objects E self hashes w))))"
  shows "\<exists>h. Some h \<in> set hashes \<and> length h = 40 \<and> fst r = GET
           \<and> urljoin E (url self) (obj_path h) = Inr (snd r)"
proof (cases "threads self \<le> 0")
  case True
  with assms show ?thesis by (simp add: download_objects_def)
next
  case False
  obtain rs where rs: "sent (submit_all E self hashes w) = sent w @ rs"
    and ok: "\<forall>r\<in>set rs. \<exists>h. Some h \<in> set hashes \<and> length h = 40 \<and> fst r = GET
           \<and> urljoin E (url self) (obj_path h) = Inr (snd r)"
    using submit_all_sent by blast
  from assms False rs have "r \<in> set rs"
    by (simp add: download_objects_def)
  with ok show ?thesis by blast
qed

section \<open>The reference resolver\<close>

lemma split_scan_skip:
  "split_scan sep (length xs) acc (xs @ p) = split_scan sep 0 acc p"
  by (induction xs) simp_all

lemma startswith_sublist: "startswith s p \<Longrightarrow> sublist p s"
proof -
  assume "startswith s p"
  then have "s = p @ drop (length p) s"
    by (metis append_take_drop_id startswith_def)
  then have "prefix p s" by (metis prefixI)
  then show ?thesis by (rule prefix_imp_sublist)
qed

lemma split_scan_no_match:
  assumes "\<not> sublist sep p"
  shows "split_scan sep 0 acc p = [rev acc @ p]"
  using assms
proof (induction p arbitrary: acc)
  case Nil
  show ?case by simp
next
  case (Cons c cs)
  from Cons.prems have "\<not> startswith (c # cs) sep"
    using startswith_sublist by blast
  moreover from Cons.prems have "\<not> sublist sep cs"
    by (meson sublist_Cons_right)
  ultimately show ?case
    using Cons.IH [of "c # acc"] by simp
qed

lemma split_ref:
  assumes "\<not> sublist ''ref: '' p"
  shows "split (''ref: '' @ p) ''ref: '' = [[], p]"
proof -
  have "split (''ref: '' @ p) ''ref: '' = [] # split_scan ''ref: '' (length ''ef: '') [] (''ef: '' @ p)"
    by (simp add: split_def startswith_def)
  also have "split_scan ''ref: '' (length ''ef: '') [] (''ef: '' @ p) = split_scan ''ref: '' 0 [] p"
    by (rule split_scan_skip)
  also have "\<dots> = [p]"
    using split_scan_no_match [OF assms, of "[]"] by simp
  finally show ?thesis .
qed

lemma read_text_exists:
  assumes "read_text f p = Inr t"
  shows "os_path_exists f p"
proof -
  from assms obtain c where "read_bytes f p = Inr c"
    by (cases "read_bytes f p") (simp_all add: read_text_def)
  then show ?thesis
    by (cases "resolve f p")
      (auto simp: read_bytes_def os_path_exists_def split: option.splits node.splits)
qed

text \<open>
  C5, as amended. When the text of the pointer file, stripped, is \<open>ref: p\<close> where \<open>p\<close>
  does not itself contain \<open>ref: \<close>, and the file at the join of the output directory,
  \<open>.git\<close> and \<open>p\<close> can be read, the resolver returns the trimmed text of that file and
  leaves the world as it was: no request is sent and no file is written.
\<close>

theorem local_symbolic_ref_is_read:
  assumes "read_text (fs w) (os_path_join (git_dir self) ''HEAD'') = Inr raw"
    and "strip raw = ''ref: '' @ p"
    and "\<not> sublist ''ref: '' p"
    and "read_text (fs w) (os_path_join (os_path_join (output_dir self) ''.git'') p) = Inr t"
  shows "extract_hash_from_head E self w = (Inr (Some (strip t)), w)"
proof -
  have e1: "os_path_exists (fs w) (os_path_join (git_dir self) ''HEAD'')"
    using assms(1) by (rule read_text_exists)
  have e2: "os_path_exists (fs w) (os_path_join (os_path_join (output_dir self) ''.git'') p)"
    using assms(4) by (rule read_text_exists)
  have sw: "startswith (strip raw) ''ref:''"
    by (simp add: assms(2) startswith_def)
  have sp: "split (strip raw) ''ref: '' = [[], p]"
    by (simp only: assms(2) split_ref [OF assms(3)])
  show ?thesis
    by (simp add: extract_hash_from_head_def Let_def e1 assms(1) sw sp e2 read_ref_def
        assms(4))
qed

theorem local_symbolic_ref_is_read_witness:
  "extract_hash_from_head deaf_env some_self
     (head_world (''ref: refs/heads/main'' @ [CHR 0x0A])
        [([''refs''], Dir), ([''refs'', ''heads''], Dir),
         ([''refs'', ''heads'', ''main''], File ('' '' @ replicate 40 (CHR ''a'') @ [CHR 0x0A]))])
   = (Inr (Some (strip ('' '' @ replicate 40 (CHR ''a'') @ [CHR 0x0A]))),
      head_world (''ref: refs/heads/main'' @ [CHR 0x0A])
        [([''refs''], Dir), ([''refs'', ''heads''], Dir),
         ([''refs'', ''heads'', ''main''], File ('' '' @ replicate 40 (CHR ''a'') @ [CHR 0x0A]))])"
proof (rule local_symbolic_ref_is_read)
  let ?w = "head_world (''ref: refs/heads/main'' @ [CHR 0x0A])
        [([''refs''], Dir), ([''refs'', ''heads''], Dir),
         ([''refs'', ''heads'', ''main''], File ('' '' @ replicate 40 (CHR ''a'') @ [CHR 0x0A]))]"
  show "read_text (fs ?w) (os_path_join (git_dir some_self) ''HEAD'')
      = Inr (''ref: refs/heads/main'' @ [CHR 0x0A])"
    by code_simp
  show "strip (''ref: refs/heads/main'' @ [CHR 0x0A]) = ''ref: '' @ ''refs/heads/main''"
    by code_simp
  show "\<not> sublist ''ref: '' ''refs/heads/main''"
    by code_simp
  show "read_text (fs ?w) (os_path_join (os_path_join (output_dir some_self) ''.git'')
      ''refs/heads/main'') = Inr ('' '' @ replicate 40 (CHR ''a'') @ [CHR 0x0A])"
    by code_simp
qed

text \<open>
  Where the secondary path itself contains \<open>ref: \<close>, the resolver takes the text up to
  that second marker: the local file of the full path exists and holds a hash, and
  the resolver fetches another path and returns nothing.
\<close>

theorem ref_path_is_cut_at_second_marker:
  "strip ''ref: a ref: b'' = ''ref: '' @ ''a ref: b''
   \<and> read_text (fs (head_world ''ref: a ref: b''
          [([''a ref: b''], File (replicate 40 (CHR ''a'')))]))
        (os_path_join (os_path_join (output_dir some_self) ''.git'') ''a ref: b'')
       = Inr (replicate 40 (CHR ''a''))
   \<and> fst (extract_hash_from_head deaf_env some_self
          (head_world ''ref: a ref: b'' [([''a ref: b''], File (replicate 40 (CHR ''a'')))]))
       = Inr None
   \<and> sent (snd (extract_hash_from_head deaf_env some_self
          (head_world ''ref: a ref: b'' [([''a ref: b''], File (replicate 40 (CHR ''a'')))])))
       = [(GET, ''http://h/.git/a '')]"
  by code_simp


section \<open>Validation before the object fetch\<close>

lemma bare_head_hash_is_validated:
  assumes "extract_hash_from_head E self w = (Inr (Some h), w')"
    and "read_text (fs w) (os_path_join (git_dir self) ''HEAD'') = Inr raw"
    and "\<not> startswith (strip raw) ''ref:''"
  shows "ref_pattern_match h"
proof -
  have "os_path_exists (fs w) (os_path_join (git_dir self) ''HEAD'')"
    using assms(2) by (rule read_text_exists)
  with assms show ?thesis
    by (simp add: extract_hash_from_head_def Let_def split: if_splits)
qed

text \<open>
  C1. The pointer file in its bare form is matched against \<open>^[0-9a-f]{40}$\<close> before its
  text is used as a hash: a \<open>HEAD\<close> of forty times the letter \<open>z\<close> leads to no object
  fetch. The symbolic branch returns the trimmed text of the ref file as it is, and
  \<open>download_objects\<close> tests the length only: the same forty letters in the ref file are
  not a content hash, and their object is fetched. A ref file of eleven times \<open>../\<close>
  followed by \<open>tmp/abc\<close>, forty characters as well, makes the object fetch write the
  served body to \<open>/tmp/abc\<close>.
\<close>

theorem unvalidated_symbolic_hash_is_fetched:
  "\<not> is_content_hash (replicate 40 (CHR ''z''))
   \<and> (GET, ''http://h/.git/objects/zz/zzzzzzzzzzzzzzzzzzzzzzzzzzzzzzzzzzzzzz'')
     \<in> set (sent (snd (main
         (python_env (file_server
            [(''http://h/.git/HEAD'', ''ref: refs/heads/main'' @ [CHR 0x0A]),
             (''http://h/.git/refs/heads/main'', replicate 40 (CHR ''z'') @ [CHR 0x0A])]))
         ''http://h/'' ''out'' 10 fresh_world)))
   \<and> sent (snd (main
         (python_env (file_server
            [(''http://h/.git/HEAD'', replicate 40 (CHR ''z'') @ [CHR 0x0A])]))
         ''http://h/'' ''out'' 10 fresh_world))
     = [(HEAD, ''http://h/.git/HEAD''), (GET, ''http://h/.git/HEAD''),
        (GET, ''http://h/.git/config''), (GET, ''http://h/.git/description''),
        (GET, ''http://h/.git/info/exclude''), (GET, ''http://h/.git/objects/info/packs''),
        (GET, ''http://h/.git/refs/heads/master''), (GET, ''http://h/.git/refs/heads/main''),
        (GET, ''http://h/.git/index'')]
   \<and> length ''../../../../../../../../../../../tmp/abc'' = 40
   \<and> node_at (fs (snd (main
         (python_env (file_server
            [(''http://h/.git/HEAD'', ''ref: refs/heads/main'' @ [CHR 0x0A]),
             (''http://h/.git/refs/heads/main'',
              ''../../../../../../../../../../../tmp/abc'' @ [CHR 0x0A]),
             (''http://h/tmp/abc'', ''body'')]))
         ''http://h/'' ''out'' 10 fresh_world))) [''tmp'', ''abc''] = Some (File ''body'')"
  by code_simp

text \<open>
  C4. A pointer file that starts with \<open>ref:\<close> but has no \<open>ref: \<close> marker makes
  \<open>content.split('ref: ')\<close> a one-element list, and the index \<open>[1]\<close> raises: the
  \<open>IndexError\<close> leaves the resolver, \<open>execute\<close> and the whole run.
\<close>

theorem ref_without_space_raises:
  "fst (extract_hash_from_head deaf_env some_self (head_world ''ref:refs/heads/main'' []))
     = Inl IndexError
   \<and> fst (main (python_env (file_server [(''http://h/.git/HEAD'', ''ref:refs/heads/main'')]))
            ''http://h/'' ''out'' 10 fresh_world)
     = Inl IndexError"
  by code_simp

section \<open>Request URLs\<close>

text \<open>
  C2. For the base URL \<open>http://example.com/app/\<close> the constructor strips the final slash
  and \<open>urljoin\<close> then replaces the last segment of the base path: the probe and the
  downloads go to \<open>http://example.com/.git/...\<close>, and no request goes to the base URL
  followed by the relative path.
\<close>

theorem base_path_segment_is_replaced:
  "sent (snd (main (python_env (file_server [(''http://example.com/.git/HEAD'', ''x'')]))
                ''http://example.com/app/'' ''out'' 10 fresh_world))
     = [(HEAD, ''http://example.com/.git/HEAD''), (GET, ''http://example.com/.git/HEAD''),
        (GET, ''http://example.com/.git/config''),
        (GET, ''http://example.com/.git/description''),
        (GET, ''http://example.com/.git/info/exclude''),
        (GET, ''http://example.com/.git/objects/info/packs''),
        (GET, ''http://example.com/.git/refs/heads/master''),
        (GET, ''http://example.com/.git/refs/heads/main''),
        (GET, ''http://example.com/.git/index'')]
   \<and> ''http://example.com/app/'' @ ''.git/HEAD'' \<noteq> ''http://example.com/.git/HEAD''"
  by code_simp

section \<open>Where the files go\<close>

text \<open>
  C9. The secondary path of a symbolic pointer reaches \<open>download_file\<close> and the local
  reads as it is. With \<open>ref: /tmp/evil\<close> the run writes the served body to \<open>/tmp/evil\<close>,
  with \<open>ref: ../../escaped\<close> to \<open>escaped\<close> in the working directory; the resolver then
  reads that file and returns its text. Neither location is below the output
  directory \<open>out\<close>, which is \<open>/home/out\<close>.
\<close>

theorem resolver_leaves_output_root:
  "resolve (fs ready_world) ''out'' = Inr [''home'', ''out'']
   \<and> node_at (fs (snd (main
          (python_env (file_server
             [(''http://h/.git/HEAD'', ''ref: /tmp/evil''), (''http://h/tmp/evil'', ''x'')]))
          ''http://h/'' ''out'' 10 fresh_world))) [''tmp'', ''evil''] = Some (File ''x'')
   \<and> node_at (fs fresh_world) [''tmp'', ''evil''] = None
   \<and> \<not> prefix [''home'', ''out''] [''tmp'', ''evil'']
   \<and> fst (extract_hash_from_head
          (python_env (file_server [(''http://h/tmp/evil'', ''x'')]))
          some_self (head_world ''ref: /tmp/evil'' [])) = Inr (Some ''x'')
   \<and> node_at (fs (snd (main
          (python_env (file_server
             [(''http://h/.git/HEAD'', ''ref: ../../escaped''), (''http://h/escaped'', ''y'')]))
          ''http://h/'' ''out'' 10 fresh_world))) [''home'', ''escaped''] = Some (File ''y'')
   \<and> node_at (fs fresh_world) [''home'', ''escaped''] = None
   \<and> \<not> prefix [''home'', ''out''] [''home'', ''escaped'']
   \<and> fst (extract_hash_from_head
          (python_env (file_server [(''http://h/escaped'', ''y'')]))
          some_self (head_world ''ref: ../../escaped'' [])) = Inr (Some ''y'')"
  by code_simp


section \<open>The pack manifest\<close>












section \<open>The constructor\<close>













end
